theory Spec2Isabelle
  imports Main "HOL-Library.Char_ord" "HOL-Library.List_Lexorder"
begin

section \<open>Strings\<close>

text \<open>
  A Go \<^verbatim>\<open>string\<close> is a sequence of bytes, here a \<^typ>\<open>string\<close> (a list of 8-bit
  \<^typ>\<open>char\<close>). Go compares strings with \<^verbatim>\<open>>=\<close> byte by byte, lexicographically;
  that is the order of \<^theory_text>\<open>HOL-Library.List_Lexorder\<close> over the byte order of
  \<^theory_text>\<open>HOL-Library.Char_ord\<close>.
\<close>

text \<open>\<^verbatim>\<open>strings.HasPrefix(s, prefix)\<close>.\<close>

fun HasPrefix :: "string \<Rightarrow> string \<Rightarrow> bool" where
  "HasPrefix s [] = True"
| "HasPrefix [] (p # ps) = False"
| "HasPrefix (c # s) (p # ps) = (c = p \<and> HasPrefix s ps)"

text \<open>\<^verbatim>\<open>strings.Contains(s, substr)\<close>: \<open>substr\<close> occurs somewhere within \<open>s\<close>.\<close>

fun Contains :: "string \<Rightarrow> string \<Rightarrow> bool" where
  "Contains [] substr = (substr = [])"
| "Contains (c # s) substr = (HasPrefix (c # s) substr \<or> Contains s substr)"

section \<open>The regular expressions of \<^verbatim>\<open>main.go\<close>\<close>

text \<open>
  The fragment of Go's \<^verbatim>\<open>regexp\<close> syntax that the two patterns of \<^verbatim>\<open>main.go\<close> use:
  a character class \<^verbatim>\<open>[a-f0-9]\<close> (a list of inclusive byte ranges), a literal byte,
  a counted repetition \<^verbatim>\<open>x{n}\<close>, concatenation, and \<^verbatim>\<open>$\<close>, which without the
  \<^verbatim>\<open>m\<close> flag matches only at the end of the text. Both classes hold ASCII bytes only,
  and no byte of a multi-byte UTF-8 sequence is ASCII, so matching bytes is matching runes.
\<close>

type_synonym char_range = "char \<times> char"

definition in_class :: "char_range list \<Rightarrow> char \<Rightarrow> bool" where
  "in_class rs c = list_ex (\<lambda>(lo, hi). lo \<le> c \<and> c \<le> hi) rs"

datatype regexp =
    Class "char_range list"
  | Literal char
  | Repeat regexp nat
  | Cat regexp regexp
  | EndText

text \<open>
  \<open>step re s\<close> matches \<open>re\<close> at the start of \<open>s\<close> and returns what is left of \<open>s\<close>
  after each way of matching, in the order the matcher prefers them; the empty list
  means that \<open>re\<close> does not match there.
\<close>

primrec repeat_rests :: "(string \<Rightarrow> string list) \<Rightarrow> nat \<Rightarrow> string list \<Rightarrow> string list" where
  "repeat_rests f 0 rests = rests"
| "repeat_rests f (Suc n) rests = repeat_rests f n (concat (map f rests))"

primrec step :: "regexp \<Rightarrow> string \<Rightarrow> string list" where
  "step (Class rs) s = (case s of [] \<Rightarrow> [] | c # t \<Rightarrow> if in_class rs c then [t] else [])"
| "step (Literal x) s = (case s of [] \<Rightarrow> [] | c # t \<Rightarrow> if c = x then [t] else [])"
| "step (Repeat r n) s = repeat_rests (step r) n [s]"
| "step (Cat r1 r2) s = concat (map (step r2) (step r1 s))"
| "step EndText s = (if s = [] then [[]] else [])"

text \<open>The places where a search may start: \<open>s\<close> itself, then each shorter suffix.\<close>

fun tails :: "string \<Rightarrow> string list" where
  "tails [] = [[]]"
| "tails (c # s) = (c # s) # tails s"

text \<open>\<^verbatim>\<open>(*Regexp).MatchString\<close>: the pattern matches somewhere in \<open>s\<close> (the search is
  not anchored at the start).\<close>

definition MatchString :: "regexp \<Rightarrow> string \<Rightarrow> bool" where
  "MatchString re s = list_ex (\<lambda>t. step re t \<noteq> []) (tails s)"

text \<open>\<^verbatim>\<open>(*Regexp).FindString\<close>: the text of the leftmost match, and the empty
  string when there is none (at the end of the text a match can only be empty).\<close>

fun FindString :: "regexp \<Rightarrow> string \<Rightarrow> string" where
  "FindString re [] = []"
| "FindString re (c # s) =
     (case step re (c # s) of
        [] \<Rightarrow> FindString re s
      | rest # _ \<Rightarrow> take (length (c # s) - length rest) (c # s))"

text \<open>\<^verbatim>\<open>regexp.MustCompile(`[0-9]{14}-[a-f0-9]{12}$`)\<close>\<close>

definition pseudoVersionRe :: regexp where
  "pseudoVersionRe =
     Cat (Repeat (Class [(CHR ''0'', CHR ''9'')]) 14)
       (Cat (Literal CHR ''-'')
         (Cat (Repeat (Class [(CHR ''a'', CHR ''f''), (CHR ''0'', CHR ''9'')]) 12)
           EndText))"

text \<open>\<^verbatim>\<open>regexp.MustCompile(`[0-9]{14}`)\<close>\<close>

definition timestampRe :: regexp where
  "timestampRe = Repeat (Class [(CHR ''0'', CHR ''9'')]) 14"

section \<open>Errors\<close>

text \<open>
  The errors of \<^verbatim>\<open>main.go\<close>, one constructor for each place that makes one:
  \<^item> \<open>ReadingFile msg\<close>: \<^verbatim>\<open>fmt.Errorf("reading file: %w", err)\<close>;
  \<^item> \<open>ParsingGoMod msg\<close>: \<^verbatim>\<open>fmt.Errorf("parsing go.mod: %w", err)\<close>;
  \<^item> \<open>QueryFailed msg\<close>: an error of \<^verbatim>\<open>queryModuleVersion\<close>, returned as it is, with
    its message \<^verbatim>\<open>err.Error()\<close>;
  \<^item> \<open>NoBranchFound\<close>: \<^verbatim>\<open>errors.New("neither main nor master branch found")\<close>;
  \<^item> \<open>NoTimestampFound v\<close>: \<^verbatim>\<open>fmt.Errorf("no timestamp found in version %q", version)\<close>;
  \<^item> \<open>Checking m err\<close>: \<^verbatim>\<open>fmt.Errorf("checking %s: %w", dep.module, err)\<close>.
\<close>

datatype error =
    ReadingFile string
  | ParsingGoMod string
  | QueryFailed string
  | NoBranchFound
  | NoTimestampFound string
  | Checking string error

section \<open>Timestamps and their comparison\<close>

definition extractTimestamp :: "string \<Rightarrow> error + string" where
  "extractTimestamp version =
     (let match = FindString timestampRe version
      in if match = [] then Inl (NoTimestampFound version) else Inr match)"

definition newerVersion :: "string \<Rightarrow> string \<Rightarrow> error + string" where
  "newerVersion a b =
     (case extractTimestamp a of
        Inl err \<Rightarrow> Inl err
      | Inr tsA \<Rightarrow>
          (case extractTimestamp b of
             Inl err \<Rightarrow> Inl err
           | Inr tsB \<Rightarrow> if tsA \<ge> tsB then Inr a else Inr b))"

section \<open>Resolving the default branch\<close>

text \<open>
  \<^verbatim>\<open>queryModuleVersion\<close> runs \<^verbatim>\<open>go list -m -json modulePath@branch\<close>, an external
  process, so it is a parameter: a function of the module path, the branch and the state
  of the world \<open>'w\<close> (the network, the module proxy) that returns the version or \<open>Inl\<close>
  of the error's message, and the world after the call.
\<close>

type_synonym 'w resolver = "string \<Rightarrow> string \<Rightarrow> 'w \<Rightarrow> (string + string) \<times> 'w"

definition branches :: "string list" where
  "branches = [''main'', ''master'']"

text \<open>The loop of \<^verbatim>\<open>getLatestVersion\<close> over the branches, with the slice
  \<^verbatim>\<open>versions\<close> it appends to.\<close>

fun getLatestVersion_loop ::
  "'w resolver \<Rightarrow> string \<Rightarrow> string list \<Rightarrow> string list \<Rightarrow> 'w \<Rightarrow> (error + string list) \<times> 'w" where
  "getLatestVersion_loop query modulePath [] versions w = (Inr versions, w)"
| "getLatestVersion_loop query modulePath (branch # rest) versions w =
     (case query modulePath branch w of
        (Inl err, w') \<Rightarrow>
          if Contains err ''unknown revision''
          then getLatestVersion_loop query modulePath rest versions w'
          else (Inl (QueryFailed err), w')
      | (Inr version, w') \<Rightarrow>
          getLatestVersion_loop query modulePath rest (versions @ [version]) w')"

definition getLatestVersion :: "'w resolver \<Rightarrow> string \<Rightarrow> 'w \<Rightarrow> (error + string) \<times> 'w" where
  "getLatestVersion query modulePath w =
     (case getLatestVersion_loop query modulePath branches [] w of
        (Inl err, w') \<Rightarrow> (Inl err, w')
      | (Inr versions, w') \<Rightarrow>
          if length versions = 0 then (Inl NoBranchFound, w')
          else if length versions = 2 then (newerVersion (versions ! 0) (versions ! 1), w')
          else (Inr (versions ! 0), w'))"

section \<open>Data\<close>

text \<open>A \<^verbatim>\<open>require\<close> line of the parsed \<^verbatim>\<open>go.mod\<close> (\<^verbatim>\<open>modfile.Require\<close>, with its
  \<^verbatim>\<open>module.Version\<close>).\<close>

record module_version =
  Path :: string
  Version :: string

record require =
  Mod :: module_version
  Indirect :: bool

text \<open>\<^verbatim>\<open>type dependency struct\<close> and \<^verbatim>\<open>type update struct\<close>. Both structs have a field
  \<^verbatim>\<open>module\<close>; the one of \<^verbatim>\<open>update\<close> is \<open>umodule\<close> here. In \<^verbatim>\<open>checkForUpdates\<close>
  the local variable \<^verbatim>\<open>latest\<close> is \<open>latestVersion\<close>, the field keeping the name.\<close>

record dependency =
  module :: string
  version :: string

record update =
  umodule :: string
  current :: string
  latest :: string

section \<open>Scanning the manifest\<close>

text \<open>The loop of \<^verbatim>\<open>findPseudoVersionedDeps\<close> over \<^verbatim>\<open>f.Require\<close>, with the slice
  \<^verbatim>\<open>deps\<close> it appends to.\<close>

fun findPseudoVersionedDeps_loop :: "require list \<Rightarrow> bool \<Rightarrow> dependency list \<Rightarrow> dependency list" where
  "findPseudoVersionedDeps_loop [] includeIndirect deps = deps"
| "findPseudoVersionedDeps_loop (req # rest) includeIndirect deps =
     (if \<not> MatchString pseudoVersionRe (Version (Mod req))
      then findPseudoVersionedDeps_loop rest includeIndirect deps
      else if Indirect req \<and> \<not> includeIndirect
      then findPseudoVersionedDeps_loop rest includeIndirect deps
      else findPseudoVersionedDeps_loop rest includeIndirect
             (deps @ [\<lparr>module = Path (Mod req), version = Version (Mod req)\<rparr>]))"

text \<open>
  \<^verbatim>\<open>findPseudoVersionedDeps\<close>. Reading and parsing the file are the work of the
  standard library and of \<^verbatim>\<open>golang.org/x/mod/modfile\<close>, so they are parameters:
  \<open>readFile p\<close> is \<^verbatim>\<open>os.ReadFile(filepath.Clean(p))\<close> and \<open>parse p data\<close> is
  \<^verbatim>\<open>modfile.Parse(p, data, nil)\<close> followed by \<^verbatim>\<open>f.Require\<close>; each returns \<open>Inl\<close> of
  the error's message when it fails.
\<close>

definition findPseudoVersionedDeps ::
  "(string \<Rightarrow> string + string) \<Rightarrow> (string \<Rightarrow> string \<Rightarrow> string + require list) \<Rightarrow>
   string \<Rightarrow> bool \<Rightarrow> error + dependency list" where
  "findPseudoVersionedDeps readFile parse gomodPath includeIndirect =
     (case readFile gomodPath of
        Inl err \<Rightarrow> Inl (ReadingFile err)
      | Inr data \<Rightarrow>
          (case parse gomodPath data of
             Inl err \<Rightarrow> Inl (ParsingGoMod err)
           | Inr requires \<Rightarrow> Inr (findPseudoVersionedDeps_loop requires includeIndirect [])))"

section \<open>Checking for updates\<close>

text \<open>The loop of \<^verbatim>\<open>checkForUpdates\<close> over the dependencies, with the slice
  \<^verbatim>\<open>updates\<close> it appends to.\<close>

fun checkForUpdates_loop ::
  "'w resolver \<Rightarrow> dependency list \<Rightarrow> update list \<Rightarrow> 'w \<Rightarrow> (error + update list) \<times> 'w" where
  "checkForUpdates_loop query [] updates w = (Inr updates, w)"
| "checkForUpdates_loop query (dep # rest) updates w =
     (case getLatestVersion query (module dep) w of
        (Inl err, w') \<Rightarrow> (Inl (Checking (module dep) err), w')
      | (Inr latestVersion, w') \<Rightarrow>
          checkForUpdates_loop query rest
            (if version dep \<noteq> latestVersion
             then updates @ [\<lparr>umodule = module dep, current = version dep, latest = latestVersion\<rparr>]
             else updates) w')"

definition checkForUpdates :: "'w resolver \<Rightarrow> dependency list \<Rightarrow> 'w \<Rightarrow> (error + update list) \<times> 'w" where
  "checkForUpdates query deps w = checkForUpdates_loop query deps [] w"

section \<open>The vocabulary of the properties\<close>

text \<open>The decimal digits \<^verbatim>\<open>0\<close> to \<^verbatim>\<open>9\<close>, the lowercase hexadecimal digits, and
  "14 consecutive decimal digits start at offset \<open>i\<close> of \<open>s\<close>".\<close>

definition decimal_digit :: "char \<Rightarrow> bool" where
  "decimal_digit c = (c \<in> set ''0123456789'')"

definition lower_hex_digit :: "char \<Rightarrow> bool" where
  "lower_hex_digit c = (c \<in> set ''0123456789abcdef'')"

definition digit_run_at :: "string \<Rightarrow> nat \<Rightarrow> bool" where
  "digit_run_at s i = (i + 14 \<le> length s \<and> list_all decimal_digit (take 14 (drop i s)))"

text \<open>The number that a string of decimal digits denotes.\<close>

fun digits_value :: "string \<Rightarrow> nat" where
  "digits_value [] = 0"
| "digits_value (c # cs) = (of_char c - 48) * 10 ^ length cs + digits_value cs"

text \<open>
  A resolver that keeps, beside the world of \<open>query\<close>, the list of the
  \<open>(module path, branch)\<close> pairs it was called with, in the order of the calls.
\<close>

definition recording :: "'w resolver \<Rightarrow> ((string \<times> string) list \<times> 'w) resolver" where
  "recording query modulePath branch =
     (\<lambda>(calls, w). case query modulePath branch w of
        (r, w') \<Rightarrow> (r, (calls @ [(modulePath, branch)], w')))"

text \<open>
  The latest version of each dependency in turn, every resolution starting in the world
  that the one before it left: what "all resolutions" of a dependency list are.
\<close>

fun resolveEach :: "'w resolver \<Rightarrow> dependency list \<Rightarrow> 'w \<Rightarrow> (error + string) list \<times> 'w" where
  "resolveEach query [] w = ([], w)"
| "resolveEach query (dep # rest) w =
     (case getLatestVersion query (module dep) w of
        (r, w1) \<Rightarrow> (case resolveEach query rest w1 of (rs, w2) \<Rightarrow> (r # rs, w2)))"

section \<open>Example inputs\<close>

text \<open>The entries of the scanner's example: a direct pseudo-versioned module, a tagged
  one, and an indirect pseudo-versioned one.\<close>

definition example_requires :: "require list" where
  "example_requires =
     [\<lparr>Mod = \<lparr>Path = ''example.com/a'', Version = ''v0.0.0-20231129151722-fdeea329fbba''\<rparr>,
       Indirect = False\<rparr>,
      \<lparr>Mod = \<lparr>Path = ''example.com/b'', Version = ''v2.1.1''\<rparr>, Indirect = False\<rparr>,
      \<lparr>Mod = \<lparr>Path = ''example.com/c'', Version = ''v0.0.0-20231129151722-abcdef123456''\<rparr>,
       Indirect = True\<rparr>]"

text \<open>
  A resolver over a few modules: one with both branches, one with \<^verbatim>\<open>main\<close> only, one
  with \<^verbatim>\<open>master\<close> only, two whose branch tips are tagged releases, two where the network
  fails, and for every other module path no branch at all. Its world counts the calls.
\<close>

definition example_proxy :: "nat resolver" where
  "example_proxy modulePath branch w =
     (if modulePath = ''example.com/both'' then
        (if branch = ''main'' then Inr ''v0.0.0-20231101000000-aaaaaaaaaaaa''
         else Inr ''v0.0.0-20231201000000-bbbbbbbbbbbb'')
      else if modulePath = ''example.com/main-only'' then
        (if branch = ''main'' then Inr ''v0.0.0-20231201000000-def456def456''
         else Inl ''go: example.com/main-only@master: invalid version: unknown revision master'')
      else if modulePath = ''example.com/master-only'' then
        (if branch = ''master'' then Inr ''v0.0.0-20231101000000-abc123abc123''
         else Inl ''go: example.com/master-only@main: invalid version: unknown revision main'')
      else if modulePath = ''example.com/tagged'' then Inr ''v1.2.3''
      else if modulePath = ''example.com/tagged-master'' then
        (if branch = ''main'' then Inr ''v0.0.0-20231101000000-aaaaaaaaaaaa'' else Inr ''v1.2.3'')
      else if modulePath = ''example.com/flaky'' then
        (if branch = ''main'' then Inr ''v0.0.0-20231101000000-aaaaaaaaaaaa''
         else Inl ''dial tcp: i/o timeout'')
      else if modulePath = ''example.com/down'' then Inl ''dial tcp: i/o timeout''
      else Inl (''go: '' @ modulePath @ ''@'' @ branch @ '': invalid version: unknown revision '' @ branch),
      Suc w)"

text \<open>Two dependencies: the first is up to date, the second is behind its branch.\<close>

definition example_deps :: "dependency list" where
  "example_deps =
     [\<lparr>module = ''example.com/main-only'', version = ''v0.0.0-20231201000000-def456def456''\<rparr>,
      \<lparr>module = ''example.com/master-only'', version = ''v0.0.0-20230901000000-0123456789ab''\<rparr>]"

section \<open>Substrings\<close>

text \<open>\<open>HasPrefix\<close> and \<open>Contains\<close> compute what their names say.\<close>

lemma HasPrefix_iff: "HasPrefix s p \<longleftrightarrow> (\<exists>post. s = p @ post)"
  by (induction s p rule: HasPrefix.induct) auto

lemma Contains_iff: "Contains s substr \<longleftrightarrow> (\<exists>pre post. s = pre @ substr @ post)"
proof (induction s)
  case Nil
  show ?case by auto
next
  case (Cons c s)
  have "(\<exists>pre post. c # s = pre @ substr @ post) \<longleftrightarrow>
      (\<exists>post. c # s = substr @ post) \<or> (\<exists>pre post. s = pre @ substr @ post)"
  proof
    assume "\<exists>pre post. c # s = pre @ substr @ post"
    then obtain pre post where *: "c # s = pre @ substr @ post" by blast
    show "(\<exists>post. c # s = substr @ post) \<or> (\<exists>pre post. s = pre @ substr @ post)"
    proof (cases pre)
      case Nil
      with * show ?thesis by auto
    next
      case (Cons a pre')
      with * have "s = pre' @ substr @ post" by simp
      then show ?thesis by blast
    qed
  next
    assume "(\<exists>post. c # s = substr @ post) \<or> (\<exists>pre post. s = pre @ substr @ post)"
    then show "\<exists>pre post. c # s = pre @ substr @ post"
    proof
      assume "\<exists>post. c # s = substr @ post"
      then obtain post where "c # s = [] @ substr @ post" by auto
      then show ?thesis by blast
    next
      assume "\<exists>pre post. s = pre @ substr @ post"
      then obtain pre post where "c # s = (c # pre) @ substr @ post" by auto
      then show ?thesis by blast
    qed
  qed
  with Cons show ?case by (simp add: HasPrefix_iff)
qed

section \<open>Character classes and the two patterns\<close>

lemma char_in_codes:
  assumes "(of_char c :: nat) \<in> set ns"
  shows "c \<in> set (map char_of ns)"
proof -
  have "char_of (of_char c :: nat) \<in> char_of ` set ns" using assms by (rule imageI)
  then show ?thesis by simp
qed

lemma in_class_digits: "in_class [(CHR ''0'', CHR ''9'')] c = decimal_digit c"
proof
  assume "in_class [(CHR ''0'', CHR ''9'')] c"
  then have "48 \<le> (of_char c :: nat) \<and> (of_char c :: nat) \<le> 57"
    by (simp add: in_class_def less_eq_char_def)
  then have "(of_char c :: nat) \<in> set [48 ..< 58]"
    unfolding set_upt atLeastLessThan_iff by arith
  then have "c \<in> set (map char_of [48 ..< 58 :: nat])" by (rule char_in_codes)
  also have "map char_of [48 ..< 58 :: nat] = ''0123456789''" by code_simp
  finally show "decimal_digit c" by (simp only: decimal_digit_def)
next
  assume "decimal_digit c"
  then show "in_class [(CHR ''0'', CHR ''9'')] c"
    by (auto simp add: in_class_def decimal_digit_def)
qed

lemma in_class_hex: "in_class [(CHR ''a'', CHR ''f''), (CHR ''0'', CHR ''9'')] c = lower_hex_digit c"
proof
  assume "in_class [(CHR ''a'', CHR ''f''), (CHR ''0'', CHR ''9'')] c"
  then have "97 \<le> (of_char c :: nat) \<and> (of_char c :: nat) \<le> 102
      \<or> 48 \<le> (of_char c :: nat) \<and> (of_char c :: nat) \<le> 57"
    by (simp add: in_class_def less_eq_char_def)
  then have "(of_char c :: nat) \<in> set ([48 ..< 58] @ [97 ..< 103])"
    unfolding set_append set_upt atLeastLessThan_iff Un_iff by arith
  then have "c \<in> set (map char_of ([48 ..< 58] @ [97 ..< 103 :: nat]))" by (rule char_in_codes)
  also have "map char_of ([48 ..< 58] @ [97 ..< 103 :: nat]) = ''0123456789abcdef''" by code_simp
  finally show "lower_hex_digit c" by (simp only: lower_hex_digit_def)
next
  assume "lower_hex_digit c"
  then show "in_class [(CHR ''a'', CHR ''f''), (CHR ''0'', CHR ''9'')] c"
    by (auto simp add: in_class_def lower_hex_digit_def)
qed

lemma repeat_rests_Nil: "repeat_rests f n [] = []"
  by (induction n) simp_all

lemma step_Repeat_Class:
  "step (Repeat (Class rs) n) s =
     (if n \<le> length s \<and> list_all (in_class rs) (take n s) then [drop n s] else [])"
proof -
  have "repeat_rests (step (Class rs)) n [s] =
     (if n \<le> length s \<and> list_all (in_class rs) (take n s) then [drop n s] else [])"
  proof (induction n arbitrary: s)
    case 0
    show ?case by simp
  next
    case (Suc n)
    show ?case
    proof (cases s)
      case Nil
      then show ?thesis by (simp add: repeat_rests_Nil)
    next
      case (Cons c t)
      then show ?thesis using Suc.IH [of t] by (simp add: repeat_rests_Nil)
    qed
  qed
  then show ?thesis by simp
qed

lemma set_tails: "set (tails s) = {t. \<exists>pre. s = pre @ t}"
proof (induction s)
  case Nil
  show ?case by auto
next
  case (Cons c s)
  have "{t. \<exists>pre. c # s = pre @ t} = insert (c # s) {t. \<exists>pre. s = pre @ t}"
    by (auto simp add: Cons_eq_append_conv)
  with Cons show ?case by simp
qed

lemma MatchString_iff: "MatchString re s \<longleftrightarrow> (\<exists>pre t. s = pre @ t \<and> step re t \<noteq> [])"
  unfolding MatchString_def list_ex_iff set_tails by blast

lemma step_pseudoVersionRe:
  "step pseudoVersionRe t \<noteq> [] \<longleftrightarrow>
     (\<exists>ts h. t = ts @ ''-'' @ h \<and> length ts = 14 \<and> list_all decimal_digit ts
        \<and> length h = 12 \<and> list_all lower_hex_digit h)"
  (is "?L \<longleftrightarrow> ?R")
proof
  assume l: ?L
  let ?ts = "take 14 t" and ?r = "drop 14 t"
  from l have a: "14 \<le> length t" "list_all decimal_digit ?ts"
    by (auto simp add: pseudoVersionRe_def step_Repeat_Class in_class_digits [abs_def] simp del: step.simps(3) split: if_splits)
  with l have b: "step (Cat (Literal CHR ''-'')
         (Cat (Repeat (Class [(CHR ''a'', CHR ''f''), (CHR ''0'', CHR ''9'')]) 12) EndText)) ?r \<noteq> []"
    by (simp add: pseudoVersionRe_def step_Repeat_Class in_class_digits [abs_def] del: step.simps(3))
  then obtain h where h: "?r = CHR ''-'' # h"
    by (cases ?r) (auto split: if_splits)
  with b have c: "12 \<le> length h" "list_all lower_hex_digit (take 12 h)" "drop 12 h = []"
    by (auto simp add: step_Repeat_Class in_class_hex [abs_def] simp del: step.simps(3) split: if_splits)
  have "t = ?ts @ ?r" by simp
  with h have "t = ?ts @ ''-'' @ h" by simp
  moreover have "length ?ts = 14" using a by simp
  moreover have "length h = 12" using c by simp
  moreover have "list_all lower_hex_digit h" using c by simp
  ultimately show ?R using a by blast
next
  assume ?R
  then obtain ts h where "t = ts @ ''-'' @ h" "length ts = 14" "list_all decimal_digit ts"
    "length h = 12" "list_all lower_hex_digit h" by blast
  then show ?L
    by (simp add: pseudoVersionRe_def step_Repeat_Class in_class_digits [abs_def] in_class_hex [abs_def]
          del: step.simps(3))
qed


lemma MatchString_pseudoVersionRe:
  "MatchString pseudoVersionRe s \<longleftrightarrow>
     (\<exists>pre ts h. s = pre @ ts @ ''-'' @ h \<and> length ts = 14 \<and> list_all decimal_digit ts
        \<and> length h = 12 \<and> list_all lower_hex_digit h)"
  unfolding MatchString_iff step_pseudoVersionRe by blast

lemma MatchString_pseudoVersionRe_length:
  "MatchString pseudoVersionRe s \<Longrightarrow> 27 \<le> length s"
  unfolding MatchString_pseudoVersionRe by auto

lemma MatchString_pseudoVersionRe_last:
  assumes "27 \<le> length s"
  shows "MatchString pseudoVersionRe (pre @ s) = MatchString pseudoVersionRe s"
proof
  assume "MatchString pseudoVersionRe s"
  then obtain p t where "s = p @ t" "step pseudoVersionRe t \<noteq> []"
    unfolding MatchString_iff by blast
  then have "pre @ s = (pre @ p) @ t \<and> step pseudoVersionRe t \<noteq> []" by simp
  then show "MatchString pseudoVersionRe (pre @ s)"
    unfolding MatchString_iff by blast
next
  assume "MatchString pseudoVersionRe (pre @ s)"
  then obtain p t where pt: "pre @ s = p @ t" "step pseudoVersionRe t \<noteq> []"
    unfolding MatchString_iff by blast
  then have "length t = 27" unfolding step_pseudoVersionRe by auto
  with assms have "length t \<le> length s" by simp
  with pt(1) obtain q where "s = q @ t"
    by (auto simp add: append_eq_append_conv2)
  with pt(2) show "MatchString pseudoVersionRe s"
    unfolding MatchString_iff by blast
qed

lemma step_timestampRe:
  "step timestampRe s = (if digit_run_at s 0 then [drop 14 s] else [])"
  by (simp add: timestampRe_def step_Repeat_Class in_class_digits [abs_def] digit_run_at_def
        del: step.simps(3))

lemma digit_run_at_Cons_Suc: "digit_run_at (c # s) (Suc i) = digit_run_at s i"
  by (auto simp add: digit_run_at_def)

lemma digit_run_at_Nil: "\<not> digit_run_at [] i"
  by (simp add: digit_run_at_def)

lemma FindString_timestampRe_none:
  "(\<forall>i. \<not> digit_run_at s i) \<Longrightarrow> FindString timestampRe s = []"
proof (induction s)
  case Nil
  show ?case by simp
next
  case (Cons c s)
  from Cons.prems have "\<not> digit_run_at (c # s) 0" by blast
  moreover from Cons.prems have "\<forall>i. \<not> digit_run_at s i"
    using digit_run_at_Cons_Suc by blast
  ultimately show ?case using Cons.IH by (simp add: step_timestampRe)
qed

lemma FindString_timestampRe_first:
  "digit_run_at s i \<Longrightarrow> (\<forall>j<i. \<not> digit_run_at s j) \<Longrightarrow>
     FindString timestampRe s = take 14 (drop i s)"
proof (induction s arbitrary: i)
  case Nil
  then show ?case by (simp add: digit_run_at_Nil)
next
  case (Cons c s)
  show ?case
  proof (cases i)
    case 0
    with Cons.prems(1) have "digit_run_at (c # s) 0" by simp
    moreover from this have "14 \<le> length (c # s)" by (simp add: digit_run_at_def)
    ultimately show ?thesis using 0 by (simp add: step_timestampRe)
  next
    case (Suc k)
    with Cons.prems have k: "digit_run_at s k" "\<forall>j<k. \<not> digit_run_at s j"
      using digit_run_at_Cons_Suc by auto
    from Suc Cons.prems(2) have "\<not> digit_run_at (c # s) 0" by blast
    then show ?thesis using Cons.IH [OF k] Suc by (simp add: step_timestampRe)
  qed
qed

lemma digit_run_nonempty: "digit_run_at s i \<Longrightarrow> take 14 (drop i s) \<noteq> []"
  by (auto simp add: digit_run_at_def)

lemma first_digit_run:
  assumes "digit_run_at s i"
  obtains k where "digit_run_at s k" "\<forall>j<k. \<not> digit_run_at s j" "k \<le> i"
proof -
  let ?k = "LEAST k. digit_run_at s k"
  have "digit_run_at s ?k" using assms by (rule LeastI)
  moreover have "\<forall>j<?k. \<not> digit_run_at s j" using not_less_Least by blast
  moreover have "?k \<le> i" using assms by (rule Least_le)
  ultimately show thesis using that by blast
qed

lemma extractTimestamp_none:
  "(\<forall>i. \<not> digit_run_at s i) \<Longrightarrow> extractTimestamp s = Inl (NoTimestampFound s)"
  by (simp add: extractTimestamp_def FindString_timestampRe_none)

lemma extractTimestamp_first:
  "digit_run_at s i \<Longrightarrow> (\<forall>j<i. \<not> digit_run_at s j) \<Longrightarrow>
     extractTimestamp s = Inr (take 14 (drop i s))"
  using FindString_timestampRe_first [of s i] digit_run_nonempty [of s i]
  by (simp add: extractTimestamp_def)

lemma extractTimestamp_some:
  assumes "digit_run_at s i"
  shows "\<exists>ts. extractTimestamp s = Inr ts"
proof -
  from assms obtain k where "digit_run_at s k" "\<forall>j<k. \<not> digit_run_at s j"
    by (rule first_digit_run)
  then show ?thesis using extractTimestamp_first by blast
qed

lemma all_less_upt: "(\<forall>j<n. P j) = list_all P [0 ..< n]"
  by (auto simp add: list_all_iff)

section \<open>The pseudo-version classifier\<close>

text \<open>
  C1. For every string \<open>s\<close>, \<^verbatim>\<open>pseudoVersionRe.MatchString(s)\<close> is true if and only if
  \<open>s\<close> ends with 14 decimal digits, a hyphen and 12 lowercase hexadecimal digits, with
  nothing after. Only the end counts: what stands before the last 27 bytes never changes
  the result. The tagged versions \<^verbatim>\<open>v1.2.3\<close> and \<^verbatim>\<open>v1.2.3-beta.1\<close> are not matched.
\<close>

theorem pseudoVersionRe_trailing_shape:
  "(MatchString pseudoVersionRe s \<longleftrightarrow>
      (\<exists>pre ts h. s = pre @ ts @ ''-'' @ h \<and> length ts = 14 \<and> list_all decimal_digit ts
         \<and> length h = 12 \<and> list_all lower_hex_digit h))
   \<and> (27 \<le> length s \<longrightarrow>
        MatchString pseudoVersionRe (before @ s) = MatchString pseudoVersionRe s)
   \<and> \<not> MatchString pseudoVersionRe ''v1.2.3''
   \<and> \<not> MatchString pseudoVersionRe ''v1.2.3-beta.1''"
proof (intro conjI impI)
  show "MatchString pseudoVersionRe s \<longleftrightarrow>
      (\<exists>pre ts h. s = pre @ ts @ ''-'' @ h \<and> length ts = 14 \<and> list_all decimal_digit ts
         \<and> length h = 12 \<and> list_all lower_hex_digit h)"
    by (rule MatchString_pseudoVersionRe)
next
  assume "27 \<le> length s"
  then show "MatchString pseudoVersionRe (before @ s) = MatchString pseudoVersionRe s"
    by (rule MatchString_pseudoVersionRe_last)
next
  show "\<not> MatchString pseudoVersionRe ''v1.2.3''"
    using MatchString_pseudoVersionRe_length [of "''v1.2.3''"] by auto
next
  show "\<not> MatchString pseudoVersionRe ''v1.2.3-beta.1''"
    using MatchString_pseudoVersionRe_length [of "''v1.2.3-beta.1''"] by auto
qed

text \<open>The theorem at the pseudo-version of the package comment, alone and behind an
  earlier run of 14 digits.\<close>

theorem pseudoVersionRe_trailing_shape_witness:
  "27 \<le> length ''v0.0.0-20231129151722-fdeea329fbba''
   \<and> MatchString pseudoVersionRe ''v0.0.0-20231129151722-fdeea329fbba''
   \<and> MatchString pseudoVersionRe (''v1.1.1-0.20251215205057.'' @ ''v0.0.0-20231129151722-fdeea329fbba'')"
proof -
  let ?s = "''v0.0.0-20231129151722-fdeea329fbba''"
  have shape: "\<exists>pre ts h. ?s = pre @ ts @ ''-'' @ h \<and> length ts = 14 \<and> list_all decimal_digit ts
         \<and> length h = 12 \<and> list_all lower_hex_digit h"
    by (rule exI [of _ "''v0.0.0-''"], rule exI [of _ "''20231129151722''"],
        rule exI [of _ "''fdeea329fbba''"]) (simp add: decimal_digit_def lower_hex_digit_def)
  have len: "27 \<le> length ?s" by simp
  have m: "MatchString pseudoVersionRe ?s"
    using pseudoVersionRe_trailing_shape [of ?s] shape by blast
  from len m pseudoVersionRe_trailing_shape [of ?s "''v1.1.1-0.20251215205057.''"]
  show ?thesis by blast
qed

text \<open>
  The inputs of \<^verbatim>\<open>TestPseudoVersionRe\<close> in \<^verbatim>\<open>main_test.go\<close>. On the last one, a
  \<^verbatim>\<open>go.mod\<close> line that ends with \<^verbatim>\<open>// indirect\<close>, the test expects a match; the
  pattern of \<^verbatim>\<open>main.go\<close> ends with \<^verbatim>\<open>$\<close> and does not match it.
\<close>

lemma TestPseudoVersionRe:
  "MatchString pseudoVersionRe ''v0.0.0-20231129151722-fdeea329fbba''"
  "MatchString pseudoVersionRe ''v1.1.1-0.20251215205057-2f3252140e00''"
  "\<not> MatchString pseudoVersionRe ''v1.2.3''"
  "\<not> MatchString pseudoVersionRe ''v1.2.3-beta.1''"
  "MatchString pseudoVersionRe (CHR 0x09 # ''github.com/maxmind/mmdbwriter v1.1.1-0.20251215205057-2f3252140e00'')"
  "\<not> MatchString pseudoVersionRe
      (CHR 0x09 # ''github.com/example/module v0.0.0-20231129151722-fdeea329fbba // indirect'')"
  by code_simp+

section \<open>Extracting the timestamp\<close>

text \<open>
  C8. For every string \<open>s\<close>, \<^verbatim>\<open>extractTimestamp\<close> returns the leftmost run of 14
  consecutive decimal digits of \<open>s\<close>: the 14 bytes at the least offset where 14 digits
  start, wherever that is in \<open>s\<close>. It fails, with the no-timestamp-found error, exactly
  when 14 consecutive digits start at no offset of \<open>s\<close>. It yields \<^verbatim>\<open>20231129151722\<close> on
  \<^verbatim>\<open>v0.0.0-20231129151722-fdeea329fbba\<close>, \<^verbatim>\<open>20251215205057\<close> on
  \<^verbatim>\<open>v1.1.1-0.20251215205057-2f3252140e00\<close>, and fails on \<^verbatim>\<open>v1.2.3\<close>.
\<close>

theorem extractTimestamp_leftmost_run:
  "((\<forall>i. \<not> digit_run_at s i) \<longrightarrow> extractTimestamp s = Inl (NoTimestampFound s))
   \<and> (digit_run_at s i \<and> (\<forall>j<i. \<not> digit_run_at s j) \<longrightarrow>
        extractTimestamp s = Inr (take 14 (drop i s)))
   \<and> ((\<exists>e. extractTimestamp s = Inl e) \<longleftrightarrow> (\<forall>i. \<not> digit_run_at s i))
   \<and> extractTimestamp ''v0.0.0-20231129151722-fdeea329fbba'' = Inr ''20231129151722''
   \<and> extractTimestamp ''v1.1.1-0.20251215205057-2f3252140e00'' = Inr ''20251215205057''
   \<and> extractTimestamp ''v1.2.3'' = Inl (NoTimestampFound ''v1.2.3'')"
proof (intro conjI impI)
  assume "\<forall>i. \<not> digit_run_at s i"
  then show "extractTimestamp s = Inl (NoTimestampFound s)" by (rule extractTimestamp_none)
next
  assume "digit_run_at s i \<and> (\<forall>j<i. \<not> digit_run_at s j)"
  then show "extractTimestamp s = Inr (take 14 (drop i s))"
    using extractTimestamp_first by blast
next
  show "(\<exists>e. extractTimestamp s = Inl e) \<longleftrightarrow> (\<forall>i. \<not> digit_run_at s i)"
    using extractTimestamp_none [of s] extractTimestamp_some [of s] by fastforce
next
  show "extractTimestamp ''v0.0.0-20231129151722-fdeea329fbba'' = Inr ''20231129151722''"
    by code_simp
next
  show "extractTimestamp ''v1.1.1-0.20251215205057-2f3252140e00'' = Inr ''20251215205057''"
    by code_simp
next
  show "extractTimestamp ''v1.2.3'' = Inl (NoTimestampFound ''v1.2.3'')"
    by code_simp
qed

text \<open>The theorem at a string with two runs of 14 digits, where the result is the first
  run and not the one next to the commit hash, and at a string with none.\<close>

theorem extractTimestamp_leftmost_run_witness:
  "digit_run_at ''v0.0.0-11111111111111.20231129151722-fdeea329fbba'' 7
   \<and> \<not> (\<exists>j<7. digit_run_at ''v0.0.0-11111111111111.20231129151722-fdeea329fbba'' j)
   \<and> digit_run_at ''v0.0.0-11111111111111.20231129151722-fdeea329fbba'' 22
   \<and> extractTimestamp ''v0.0.0-11111111111111.20231129151722-fdeea329fbba'' = Inr ''11111111111111''
   \<and> (\<forall>i. \<not> digit_run_at ''v1.2.3-beta.1'' i)
   \<and> extractTimestamp ''v1.2.3-beta.1'' = Inl (NoTimestampFound ''v1.2.3-beta.1'')"
proof -
  let ?s = "''v0.0.0-11111111111111.20231129151722-fdeea329fbba''"
  have a: "digit_run_at ?s 7" by code_simp
  have b: "\<forall>j<7. \<not> digit_run_at ?s j" unfolding all_less_upt by code_simp
  have c: "digit_run_at ?s 22" by code_simp
  have d: "\<forall>i. \<not> digit_run_at ''v1.2.3-beta.1'' i" by (simp add: digit_run_at_def)
  from a b have "extractTimestamp ?s = Inr (take 14 (drop 7 ?s))"
    using extractTimestamp_leftmost_run [of ?s 7] by blast
  moreover from d have "extractTimestamp ''v1.2.3-beta.1'' = Inl (NoTimestampFound ''v1.2.3-beta.1'')"
    using extractTimestamp_leftmost_run [of "''v1.2.3-beta.1''"] by blast
  ultimately show ?thesis using a b c d by simp
qed

section \<open>Comparing two versions\<close>

text \<open>The cases of \<^verbatim>\<open>TestNewerVersion\<close> in \<^verbatim>\<open>main_test.go\<close>.\<close>

lemma TestNewerVersion:
  "newerVersion ''v0.0.0-20231201000000-aaaaaaaaaaaa'' ''v0.0.0-20231101000000-bbbbbbbbbbbb''
     = Inr ''v0.0.0-20231201000000-aaaaaaaaaaaa''"
  "newerVersion ''v0.0.0-20231101000000-aaaaaaaaaaaa'' ''v0.0.0-20231201000000-bbbbbbbbbbbb''
     = Inr ''v0.0.0-20231201000000-bbbbbbbbbbbb''"
  "newerVersion ''v0.0.0-20231201000000-aaaaaaaaaaaa'' ''v0.0.0-20231201000000-bbbbbbbbbbbb''
     = Inr ''v0.0.0-20231201000000-aaaaaaaaaaaa''"
  "newerVersion ''v1.2.3'' ''v0.0.0-20231201000000-bbbbbbbbbbbb'' = Inl (NoTimestampFound ''v1.2.3'')"
  "newerVersion ''v0.0.0-20231201000000-aaaaaaaaaaaa'' ''v1.2.3'' = Inl (NoTimestampFound ''v1.2.3'')"
  by code_simp+

text \<open>
  C2. For all strings \<open>a\<close> and \<open>b\<close>: \<^verbatim>\<open>newerVersion(a, b)\<close> fails with the
  no-timestamp-found error of \<open>a\<close> when \<open>a\<close> has no run of 14 consecutive digits, and with
  that of \<open>b\<close> when \<open>a\<close> has one and \<open>b\<close> has none (\<open>a\<close> is checked first). Otherwise it
  returns \<open>a\<close> when the leftmost 14-digit run of \<open>a\<close> is greater than or equal to that of
  \<open>b\<close> as a string (so equal timestamps return \<open>a\<close>), and \<open>b\<close> otherwise.
\<close>

theorem newerVersion_cases:
  "((\<forall>i. \<not> digit_run_at a i) \<longrightarrow> newerVersion a b = Inl (NoTimestampFound a))
   \<and> ((\<exists>i. digit_run_at a i) \<and> (\<forall>i. \<not> digit_run_at b i) \<longrightarrow>
        newerVersion a b = Inl (NoTimestampFound b))
   \<and> (digit_run_at a i \<and> (\<forall>j<i. \<not> digit_run_at a j)
        \<and> digit_run_at b k \<and> (\<forall>j<k. \<not> digit_run_at b j) \<longrightarrow>
        newerVersion a b = Inr (if take 14 (drop i a) \<ge> take 14 (drop k b) then a else b))"
proof (intro conjI impI)
  assume "\<forall>i. \<not> digit_run_at a i"
  then show "newerVersion a b = Inl (NoTimestampFound a)"
    by (simp add: newerVersion_def extractTimestamp_none)
next
  assume h: "(\<exists>i. digit_run_at a i) \<and> (\<forall>i. \<not> digit_run_at b i)"
  then obtain ts where "extractTimestamp a = Inr ts" using extractTimestamp_some by blast
  with h show "newerVersion a b = Inl (NoTimestampFound b)"
    by (simp add: newerVersion_def extractTimestamp_none)
next
  assume h: "digit_run_at a i \<and> (\<forall>j<i. \<not> digit_run_at a j)
        \<and> digit_run_at b k \<and> (\<forall>j<k. \<not> digit_run_at b j)"
  then have "extractTimestamp a = Inr (take 14 (drop i a))"
    "extractTimestamp b = Inr (take 14 (drop k b))"
    using extractTimestamp_first by blast+
  then show "newerVersion a b = Inr (if take 14 (drop i a) \<ge> take 14 (drop k b) then a else b)"
    by (simp add: newerVersion_def)
qed

text \<open>The theorem at the inputs of \<^verbatim>\<open>TestNewerVersion\<close>: an invalid \<open>a\<close>, an invalid
  \<open>b\<close>, and two versions with the same timestamp.\<close>

theorem newerVersion_cases_witness:
  "(\<forall>i. \<not> digit_run_at ''v1.2.3'' i)
   \<and> newerVersion ''v1.2.3'' ''v0.0.0-20231201000000-bbbbbbbbbbbb'' = Inl (NoTimestampFound ''v1.2.3'')
   \<and> (\<exists>i. digit_run_at ''v0.0.0-20231201000000-aaaaaaaaaaaa'' i)
   \<and> newerVersion ''v0.0.0-20231201000000-aaaaaaaaaaaa'' ''v1.2.3'' = Inl (NoTimestampFound ''v1.2.3'')
   \<and> digit_run_at ''v0.0.0-20231201000000-aaaaaaaaaaaa'' 7
   \<and> \<not> (\<exists>j<7. digit_run_at ''v0.0.0-20231201000000-aaaaaaaaaaaa'' j)
   \<and> digit_run_at ''v0.0.0-20231201000000-bbbbbbbbbbbb'' 7
   \<and> \<not> (\<exists>j<7. digit_run_at ''v0.0.0-20231201000000-bbbbbbbbbbbb'' j)
   \<and> newerVersion ''v0.0.0-20231201000000-aaaaaaaaaaaa'' ''v0.0.0-20231201000000-bbbbbbbbbbbb''
       = Inr ''v0.0.0-20231201000000-aaaaaaaaaaaa''"
proof -
  let ?a = "''v0.0.0-20231201000000-aaaaaaaaaaaa''" and ?b = "''v0.0.0-20231201000000-bbbbbbbbbbbb''"
  have t: "\<forall>i. \<not> digit_run_at ''v1.2.3'' i" by (simp add: digit_run_at_def)
  have a: "digit_run_at ?a 7" by code_simp
  have a': "\<forall>j<7. \<not> digit_run_at ?a j" unfolding all_less_upt by code_simp
  have b: "digit_run_at ?b 7" by code_simp
  have b': "\<forall>j<7. \<not> digit_run_at ?b j" unfolding all_less_upt by code_simp
  have 1: "newerVersion ''v1.2.3'' ?b = Inl (NoTimestampFound ''v1.2.3'')"
    using newerVersion_cases [of "''v1.2.3''" ?b] t by blast
  have 2: "newerVersion ?a ''v1.2.3'' = Inl (NoTimestampFound ''v1.2.3'')"
    using newerVersion_cases [of ?a "''v1.2.3''"] t a by blast
  have "newerVersion ?a ?b = Inr (if take 14 (drop 7 ?a) \<ge> take 14 (drop 7 ?b) then ?a else ?b)"
    using newerVersion_cases [of ?a ?b 7 7] a a' b b' by blast
  then have 3: "newerVersion ?a ?b = Inr ?a" by simp
  from t a a' b b' 1 2 3 show ?thesis by blast
qed

section \<open>The scanner\<close>

lemma findPseudoVersionedDeps_loop_eq:
  "findPseudoVersionedDeps_loop requires includeIndirect deps =
     deps @ map (\<lambda>req. \<lparr>module = Path (Mod req), version = Version (Mod req)\<rparr>)
       (filter (\<lambda>req. MatchString pseudoVersionRe (Version (Mod req))
                  \<and> \<not> (Indirect req \<and> \<not> includeIndirect)) requires)"
  by (induction requires arbitrary: deps) auto

lemma pseudo_version_has_run:
  assumes "MatchString pseudoVersionRe s"
  shows "\<exists>i. digit_run_at s i"
proof -
  from assms obtain pre ts h where
    "s = pre @ ts @ ''-'' @ h" "length ts = 14" "list_all decimal_digit ts"
    unfolding MatchString_pseudoVersionRe by blast
  then have "digit_run_at s (length pre)" by (simp add: digit_run_at_def)
  then show ?thesis ..
qed

lemma example_matches:
  "MatchString pseudoVersionRe ''v0.0.0-20231129151722-fdeea329fbba''"
  "\<not> MatchString pseudoVersionRe ''v2.1.1''"
  "MatchString pseudoVersionRe ''v0.0.0-20231129151722-abcdef123456''"
  by code_simp+

text \<open>The \<^verbatim>\<open>go.mod\<close> of \<^verbatim>\<open>TestFindPseudoVersionedDeps\<close> in \<^verbatim>\<open>main_test.go\<close>, parsed,
  without and with the indirect dependencies.\<close>

lemma TestFindPseudoVersionedDeps:
  "findPseudoVersionedDeps_loop
     [\<lparr>Mod = \<lparr>Path = ''github.com/maxmind/mmdbwriter'',
              Version = ''v1.1.1-0.20251215205057-2f3252140e00''\<rparr>, Indirect = False\<rparr>,
      \<lparr>Mod = \<lparr>Path = ''github.com/oschwald/maxminddb-golang/v2'', Version = ''v2.1.1''\<rparr>,
       Indirect = False\<rparr>,
      \<lparr>Mod = \<lparr>Path = ''go4.org/netipx'', Version = ''v0.0.0-20231129151722-fdeea329fbba''\<rparr>,
       Indirect = False\<rparr>,
      \<lparr>Mod = \<lparr>Path = ''github.com/example/indirect'',
              Version = ''v0.0.0-20231129151722-abcdef123456''\<rparr>, Indirect = True\<rparr>] False []
   = [\<lparr>module = ''github.com/maxmind/mmdbwriter'', version = ''v1.1.1-0.20251215205057-2f3252140e00''\<rparr>,
      \<lparr>module = ''go4.org/netipx'', version = ''v0.0.0-20231129151722-fdeea329fbba''\<rparr>]"
  "findPseudoVersionedDeps_loop
     [\<lparr>Mod = \<lparr>Path = ''github.com/maxmind/mmdbwriter'',
              Version = ''v1.1.1-0.20251215205057-2f3252140e00''\<rparr>, Indirect = False\<rparr>,
      \<lparr>Mod = \<lparr>Path = ''github.com/oschwald/maxminddb-golang/v2'', Version = ''v2.1.1''\<rparr>,
       Indirect = False\<rparr>,
      \<lparr>Mod = \<lparr>Path = ''go4.org/netipx'', Version = ''v0.0.0-20231129151722-fdeea329fbba''\<rparr>,
       Indirect = False\<rparr>,
      \<lparr>Mod = \<lparr>Path = ''github.com/example/indirect'',
              Version = ''v0.0.0-20231129151722-abcdef123456''\<rparr>, Indirect = True\<rparr>] True []
   = [\<lparr>module = ''github.com/maxmind/mmdbwriter'', version = ''v1.1.1-0.20251215205057-2f3252140e00''\<rparr>,
      \<lparr>module = ''go4.org/netipx'', version = ''v0.0.0-20231129151722-fdeea329fbba''\<rparr>,
      \<lparr>module = ''github.com/example/indirect'', version = ''v0.0.0-20231129151722-abcdef123456''\<rparr>]"
  by (simp_all add: TestPseudoVersionRe example_matches)

text \<open>
  C5. For every list of manifest entries and either value of \<^verbatim>\<open>includeIndirect\<close>, once
  the file is read and parsed, \<^verbatim>\<open>findPseudoVersionedDeps\<close> returns one dependency for
  each entry whose version \<^verbatim>\<open>pseudoVersionRe\<close> matches and that is not indirect while
  \<^verbatim>\<open>includeIndirect\<close> is false, and for no other entry; the dependency carries the
  entry's module path and version, and the dependencies come in the order of their
  entries.
\<close>

theorem findPseudoVersionedDeps_filter:
  "readFile gomodPath = Inr data \<and> parse gomodPath data = Inr requires \<longrightarrow>
     findPseudoVersionedDeps readFile parse gomodPath includeIndirect =
       Inr (map (\<lambda>req. \<lparr>module = Path (Mod req), version = Version (Mod req)\<rparr>)
             (filter (\<lambda>req. MatchString pseudoVersionRe (Version (Mod req))
                        \<and> \<not> (Indirect req \<and> \<not> includeIndirect)) requires))"
  by (simp add: findPseudoVersionedDeps_def findPseudoVersionedDeps_loop_eq)

text \<open>The theorem at the example entries: the direct pseudo-versioned module alone
  without indirect dependencies, and the indirect one after it with them.\<close>

theorem findPseudoVersionedDeps_filter_witness:
  "findPseudoVersionedDeps (\<lambda>p. Inr ''go.mod contents'') (\<lambda>p data. Inr example_requires) ''go.mod'' False
     = Inr [\<lparr>module = ''example.com/a'', version = ''v0.0.0-20231129151722-fdeea329fbba''\<rparr>]
   \<and> findPseudoVersionedDeps (\<lambda>p. Inr ''go.mod contents'') (\<lambda>p data. Inr example_requires) ''go.mod'' True
     = Inr [\<lparr>module = ''example.com/a'', version = ''v0.0.0-20231129151722-fdeea329fbba''\<rparr>,
            \<lparr>module = ''example.com/c'', version = ''v0.0.0-20231129151722-abcdef123456''\<rparr>]"
  using findPseudoVersionedDeps_filter
          [of "\<lambda>p. Inr ''go.mod contents''" "''go.mod''" "''go.mod contents''"
              "\<lambda>p data. Inr example_requires" example_requires False]
        findPseudoVersionedDeps_filter
          [of "\<lambda>p. Inr ''go.mod contents''" "''go.mod''" "''go.mod contents''"
              "\<lambda>p data. Inr example_requires" example_requires True]
  by (simp add: example_requires_def example_matches)

text \<open>
  C9. Every dependency that \<^verbatim>\<open>findPseudoVersionedDeps\<close> returns has a version that ends
  with 14 decimal digits, a hyphen and 12 lowercase hexadecimal digits; so
  \<^verbatim>\<open>extractTimestamp\<close> succeeds on the version of every scanned dependency.
\<close>

theorem scanned_dependency_is_pseudo_version:
  "findPseudoVersionedDeps readFile parse gomodPath includeIndirect = Inr deps \<and> dep \<in> set deps \<longrightarrow>
     (\<exists>pre ts h. version dep = pre @ ts @ ''-'' @ h \<and> length ts = 14 \<and> list_all decimal_digit ts
        \<and> length h = 12 \<and> list_all lower_hex_digit h)
     \<and> (\<exists>ts. extractTimestamp (version dep) = Inr ts)"
proof
  assume h: "findPseudoVersionedDeps readFile parse gomodPath includeIndirect = Inr deps \<and> dep \<in> set deps"
  then obtain requires where "deps = findPseudoVersionedDeps_loop requires includeIndirect []"
    by (auto simp add: findPseudoVersionedDeps_def split: sum.splits)
  with h have m: "MatchString pseudoVersionRe (version dep)"
    by (auto simp add: findPseudoVersionedDeps_loop_eq)
  then obtain i where "digit_run_at (version dep) i" using pseudo_version_has_run by blast
  then have "\<exists>ts. extractTimestamp (version dep) = Inr ts" by (rule extractTimestamp_some)
  with m show "(\<exists>pre ts h. version dep = pre @ ts @ ''-'' @ h \<and> length ts = 14 \<and> list_all decimal_digit ts
        \<and> length h = 12 \<and> list_all lower_hex_digit h)
     \<and> (\<exists>ts. extractTimestamp (version dep) = Inr ts)"
    unfolding MatchString_pseudoVersionRe by blast
qed

text \<open>The theorem at the indirect dependency of the example entries.\<close>

theorem scanned_dependency_is_pseudo_version_witness:
  "findPseudoVersionedDeps (\<lambda>p. Inr ''go.mod contents'') (\<lambda>p data. Inr example_requires) ''go.mod'' True
     = Inr [\<lparr>module = ''example.com/a'', version = ''v0.0.0-20231129151722-fdeea329fbba''\<rparr>,
            \<lparr>module = ''example.com/c'', version = ''v0.0.0-20231129151722-abcdef123456''\<rparr>]
   \<and> (\<exists>ts. extractTimestamp ''v0.0.0-20231129151722-abcdef123456'' = Inr ts)"
proof -
  let ?c = "\<lparr>module = ''example.com/c'', version = ''v0.0.0-20231129151722-abcdef123456''\<rparr>"
  let ?deps = "[\<lparr>module = ''example.com/a'', version = ''v0.0.0-20231129151722-fdeea329fbba''\<rparr>, ?c]"
  have r: "findPseudoVersionedDeps (\<lambda>p. Inr ''go.mod contents'') (\<lambda>p data. Inr example_requires)
             ''go.mod'' True = Inr ?deps"
    by (simp add: findPseudoVersionedDeps_def example_requires_def example_matches)
  have "?c \<in> set ?deps" by simp
  with r have "\<exists>ts. extractTimestamp (version ?c) = Inr ts"
    using scanned_dependency_is_pseudo_version
            [of "\<lambda>p. Inr ''go.mod contents''" "\<lambda>p data. Inr example_requires" "''go.mod''" True ?deps ?c]
    by blast
  with r show ?thesis by simp
qed

section \<open>The default-branch resolver\<close>

text \<open>\<^verbatim>\<open>getLatestVersion\<close> with its loop over \<^verbatim>\<open>main\<close> and \<^verbatim>\<open>master\<close> unrolled.\<close>

lemma getLatestVersion_unfold:
  "getLatestVersion query modulePath w =
     (case query modulePath ''main'' w of
        (Inl e1, w1) \<Rightarrow>
          if Contains e1 ''unknown revision''
          then (case query modulePath ''master'' w1 of
                  (Inl e2, w2) \<Rightarrow>
                    if Contains e2 ''unknown revision'' then (Inl NoBranchFound, w2)
                    else (Inl (QueryFailed e2), w2)
                | (Inr v2, w2) \<Rightarrow> (Inr v2, w2))
          else (Inl (QueryFailed e1), w1)
      | (Inr v1, w1) \<Rightarrow>
          (case query modulePath ''master'' w1 of
             (Inl e2, w2) \<Rightarrow>
               if Contains e2 ''unknown revision'' then (Inr v1, w2)
               else (Inl (QueryFailed e2), w2)
           | (Inr v2, w2) \<Rightarrow> (newerVersion v1 v2, w2)))"
  by (simp add: getLatestVersion_def branches_def split: prod.splits sum.splits)

lemma recording_apply:
  "query modulePath branch w = (r, w') \<Longrightarrow>
     recording query modulePath branch (calls, w) = (r, (calls @ [(modulePath, branch)], w'))"
  by (simp add: recording_def)

lemma example_Contains:
  "\<not> Contains ''dial tcp: i/o timeout'' ''unknown revision''"
  "Contains ''go: example.com/main-only@master: invalid version: unknown revision master'' ''unknown revision''"
  "Contains ''go: example.com/none@main: invalid version: unknown revision main'' ''unknown revision''"
  "Contains ''go: example.com/none@master: invalid version: unknown revision master'' ''unknown revision''"
  by code_simp+

lemma example_proxy_calls:
  "example_proxy ''example.com/down'' ''main'' w = (Inl ''dial tcp: i/o timeout'', Suc w)"
  "example_proxy ''example.com/none'' ''main'' w
     = (Inl ''go: example.com/none@main: invalid version: unknown revision main'', Suc w)"
  "example_proxy ''example.com/none'' ''master'' w
     = (Inl ''go: example.com/none@master: invalid version: unknown revision master'', Suc w)"
  "example_proxy ''example.com/flaky'' ''main'' w = (Inr ''v0.0.0-20231101000000-aaaaaaaaaaaa'', Suc w)"
  "example_proxy ''example.com/flaky'' ''master'' w = (Inl ''dial tcp: i/o timeout'', Suc w)"
  "example_proxy ''example.com/tagged'' ''main'' w = (Inr ''v1.2.3'', Suc w)"
  "example_proxy ''example.com/tagged'' ''master'' w = (Inr ''v1.2.3'', Suc w)"
  "example_proxy ''example.com/tagged-master'' ''main'' w = (Inr ''v0.0.0-20231101000000-aaaaaaaaaaaa'', Suc w)"
  "example_proxy ''example.com/tagged-master'' ''master'' w = (Inr ''v1.2.3'', Suc w)"
  "example_proxy ''example.com/both'' ''main'' w = (Inr ''v0.0.0-20231101000000-aaaaaaaaaaaa'', Suc w)"
  "example_proxy ''example.com/both'' ''master'' w = (Inr ''v0.0.0-20231201000000-bbbbbbbbbbbb'', Suc w)"
  "example_proxy ''example.com/main-only'' ''main'' w = (Inr ''v0.0.0-20231201000000-def456def456'', Suc w)"
  "example_proxy ''example.com/main-only'' ''master'' w
     = (Inl ''go: example.com/main-only@master: invalid version: unknown revision master'', Suc w)"
  "example_proxy ''example.com/master-only'' ''main'' w
     = (Inl ''go: example.com/master-only@main: invalid version: unknown revision main'', Suc w)"
  "example_proxy ''example.com/master-only'' ''master'' w = (Inr ''v0.0.0-20231101000000-abc123abc123'', Suc w)"
  by (simp_all add: example_proxy_def)

lemma example_Contains_more:
  "Contains ''go: example.com/master-only@main: invalid version: unknown revision main'' ''unknown revision''"
  by code_simp

text \<open>
  C4. For every module path and resolver: when the query of a branch fails with an error
  whose message contains \<^verbatim>\<open>unknown revision\<close>, the next branch is queried, in the world the
  failed query left, and its outcome decides the result; when the query fails with any
  other error, \<^verbatim>\<open>getLatestVersion\<close> returns that error at once. In particular, when
  \<^verbatim>\<open>main\<close> fails with another error, the only call made to the resolver is the one for
  \<^verbatim>\<open>main\<close>: \<^verbatim>\<open>master\<close> is never queried.
\<close>

theorem getLatestVersion_branch_errors:
  "(query modulePath ''main'' w = (Inl err, w1) \<and> \<not> Contains err ''unknown revision'' \<longrightarrow>
      getLatestVersion query modulePath w = (Inl (QueryFailed err), w1)
      \<and> getLatestVersion (recording query) modulePath ([], w)
          = (Inl (QueryFailed err), ([(modulePath, ''main'')], w1)))
   \<and> (query modulePath ''main'' w = (Inl err, w1) \<and> Contains err ''unknown revision''
        \<and> query modulePath ''master'' w1 = (r2, w2) \<longrightarrow>
      getLatestVersion query modulePath w =
        (case r2 of
           Inl err2 \<Rightarrow> if Contains err2 ''unknown revision'' then Inl NoBranchFound
                       else Inl (QueryFailed err2)
         | Inr v2 \<Rightarrow> Inr v2, w2)
      \<and> snd (getLatestVersion (recording query) modulePath ([], w))
          = ([(modulePath, ''main''), (modulePath, ''master'')], w2))
   \<and> (query modulePath ''main'' w = (Inr v1, w1)
        \<and> query modulePath ''master'' w1 = (Inl err2, w2) \<and> \<not> Contains err2 ''unknown revision'' \<longrightarrow>
      getLatestVersion query modulePath w = (Inl (QueryFailed err2), w2))"
proof (intro conjI impI)
  assume h: "query modulePath ''main'' w = (Inl err, w1) \<and> \<not> Contains err ''unknown revision''"
  then show "getLatestVersion query modulePath w = (Inl (QueryFailed err), w1)"
    by (simp add: getLatestVersion_unfold)
  from h have "recording query modulePath ''main'' ([], w) = (Inl err, ([(modulePath, ''main'')], w1))"
    using recording_apply [of query modulePath "''main''" w "Inl err" w1 "[]"] by simp
  with h show "getLatestVersion (recording query) modulePath ([], w)
          = (Inl (QueryFailed err), ([(modulePath, ''main'')], w1))"
    by (simp add: getLatestVersion_unfold)
next
  assume h: "query modulePath ''main'' w = (Inl err, w1) \<and> Contains err ''unknown revision''
        \<and> query modulePath ''master'' w1 = (r2, w2)"
  then show "getLatestVersion query modulePath w =
        (case r2 of
           Inl err2 \<Rightarrow> if Contains err2 ''unknown revision'' then Inl NoBranchFound
                       else Inl (QueryFailed err2)
         | Inr v2 \<Rightarrow> Inr v2, w2)"
    by (simp add: getLatestVersion_unfold split: sum.splits)
  from h have "recording query modulePath ''main'' ([], w) = (Inl err, ([(modulePath, ''main'')], w1))"
    using recording_apply [of query modulePath "''main''" w "Inl err" w1 "[]"] by simp
  moreover from h have "recording query modulePath ''master'' ([(modulePath, ''main'')], w1)
      = (r2, ([(modulePath, ''main''), (modulePath, ''master'')], w2))"
    using recording_apply [of query modulePath "''master''" w1 r2 w2 "[(modulePath, ''main'')]"] by simp
  ultimately show "snd (getLatestVersion (recording query) modulePath ([], w))
          = ([(modulePath, ''main''), (modulePath, ''master'')], w2)"
    using h by (simp add: getLatestVersion_unfold split: sum.splits)
next
  assume "query modulePath ''main'' w = (Inr v1, w1)
        \<and> query modulePath ''master'' w1 = (Inl err2, w2) \<and> \<not> Contains err2 ''unknown revision''"
  then show "getLatestVersion query modulePath w = (Inl (QueryFailed err2), w2)"
    by (simp add: getLatestVersion_unfold)
qed

text \<open>The theorem at a module where the network fails on \<^verbatim>\<open>main\<close>, at one with no
  branch, and at one where the network fails on \<^verbatim>\<open>master\<close>.\<close>

theorem getLatestVersion_branch_errors_witness:
  "example_proxy ''example.com/down'' ''main'' 0 = (Inl ''dial tcp: i/o timeout'', Suc 0)
   \<and> \<not> Contains ''dial tcp: i/o timeout'' ''unknown revision''
   \<and> getLatestVersion (recording example_proxy) ''example.com/down'' ([], 0::nat)
       = (Inl (QueryFailed ''dial tcp: i/o timeout''), ([(''example.com/down'', ''main'')], Suc 0))
   \<and> Contains ''go: example.com/none@main: invalid version: unknown revision main'' ''unknown revision''
   \<and> getLatestVersion example_proxy ''example.com/none'' 0 = (Inl NoBranchFound, Suc (Suc 0))
   \<and> snd (getLatestVersion (recording example_proxy) ''example.com/none'' ([], 0::nat))
       = ([(''example.com/none'', ''main''), (''example.com/none'', ''master'')], Suc (Suc 0))
   \<and> getLatestVersion example_proxy ''example.com/flaky'' 0
       = (Inl (QueryFailed ''dial tcp: i/o timeout''), Suc (Suc 0))"
proof -
  note c = example_proxy_calls example_Contains
  have 1: "getLatestVersion (recording example_proxy) ''example.com/down'' ([], 0::nat)
       = (Inl (QueryFailed ''dial tcp: i/o timeout''), ([(''example.com/down'', ''main'')], Suc 0))"
    using getLatestVersion_branch_errors
      [where query = example_proxy and modulePath = "''example.com/down''" and w = 0
         and err = "''dial tcp: i/o timeout''" and ?w1.0 = "Suc 0"] c by blast
  have 2: "getLatestVersion example_proxy ''example.com/none'' 0 = (Inl NoBranchFound, Suc (Suc 0))
     \<and> snd (getLatestVersion (recording example_proxy) ''example.com/none'' ([], 0::nat))
       = ([(''example.com/none'', ''main''), (''example.com/none'', ''master'')], Suc (Suc 0))"
    using getLatestVersion_branch_errors
      [where query = example_proxy and modulePath = "''example.com/none''" and w = 0
         and err = "''go: example.com/none@main: invalid version: unknown revision main''"
         and ?w1.0 = "Suc 0"
         and ?r2.0 = "Inl ''go: example.com/none@master: invalid version: unknown revision master''"
         and ?w2.0 = "Suc (Suc 0)"] c
    by simp
  have 3: "getLatestVersion example_proxy ''example.com/flaky'' 0
       = (Inl (QueryFailed ''dial tcp: i/o timeout''), Suc (Suc 0))"
    using getLatestVersion_branch_errors
      [where query = example_proxy and modulePath = "''example.com/flaky''" and w = 0
         and ?v1.0 = "''v0.0.0-20231101000000-aaaaaaaaaaaa''" and ?w1.0 = "Suc 0"
         and ?err2.0 = "''dial tcp: i/o timeout''" and ?w2.0 = "Suc (Suc 0)"] c
    by blast
  from 1 2 3 c show ?thesis by simp
qed

text \<open>Two strings of decimal digits of the same length are in the order of the numbers
  they denote.\<close>

lemma digit_code: "decimal_digit c \<Longrightarrow> 48 \<le> (of_char c :: nat) \<and> (of_char c :: nat) \<le> 57"
  by (auto simp add: decimal_digit_def)

lemma digits_value_bound: "list_all decimal_digit cs \<Longrightarrow> digits_value cs < 10 ^ length cs"
proof (induction cs)
  case Nil
  show ?case by simp
next
  case (Cons c cs)
  then have v: "digits_value cs < 10 ^ length cs" by simp
  from Cons.prems have "decimal_digit c" by simp
  then have "(of_char c :: nat) - 48 \<le> 9" using digit_code [of c] by arith
  then have "((of_char c :: nat) - 48) * 10 ^ length cs \<le> 9 * 10 ^ length cs"
    by (rule mult_le_mono1)
  moreover have "digits_value (c # cs) = (of_char c - 48) * 10 ^ length cs + digits_value cs"
    by simp
  moreover have "(10::nat) ^ length (c # cs) = 9 * 10 ^ length cs + 10 ^ length cs"
    by simp
  ultimately show ?case using v by linarith
qed

lemma positional_order:
  fixes a b p vx vy :: nat
  assumes "vx < p" "vy < p"
  shows "(a * p + vx \<le> b * p + vy) = (a < b \<or> a = b \<and> vx \<le> vy)"
proof (cases a b rule: linorder_cases)
  case less
  then have "Suc a * p \<le> b * p" by (intro mult_le_mono1) simp
  with assms less show ?thesis by simp
next
  case equal
  then show ?thesis by simp
next
  case greater
  then have "Suc b * p \<le> a * p" by (intro mult_le_mono1) simp
  with assms greater show ?thesis by simp
qed

lemma digit_strings_order:
  "length x = length y \<Longrightarrow> list_all decimal_digit x \<Longrightarrow> list_all decimal_digit y \<Longrightarrow>
     (x \<le> y) = (digits_value x \<le> digits_value y)"
proof (induction x y rule: list_induct2)
  case Nil
  show ?case by simp
next
  case (Cons c x d y)
  then have ih: "(x \<le> y) = (digits_value x \<le> digits_value y)" by simp
  from Cons have bx: "digits_value x < 10 ^ length y" and by': "digits_value y < 10 ^ length y"
    using digits_value_bound [of x] digits_value_bound [of y] by simp_all
  from Cons.prems have c: "48 \<le> (of_char c :: nat)" and d: "48 \<le> (of_char d :: nat)"
    using digit_code [of c] digit_code [of d] by simp_all
  have lt: "(c < d) = ((of_char c :: nat) - 48 < of_char d - 48)"
    using c d by (auto simp add: less_char_def)
  have "(c = d) = ((of_char c :: nat) = of_char d)" by simp
  also have "\<dots> = ((of_char c :: nat) - 48 = of_char d - 48)"
    using c d by arith
  finally have eq: "(c = d) = ((of_char c :: nat) - 48 = of_char d - 48)" .
  have "(c # x \<le> d # y) = (c < d \<or> c = d \<and> x \<le> y)" by simp
  also have "\<dots> = ((of_char c :: nat) - 48 < of_char d - 48
      \<or> (of_char c :: nat) - 48 = of_char d - 48 \<and> digits_value x \<le> digits_value y)"
    by (simp only: lt eq ih)
  also have "\<dots> = (digits_value (c # x) \<le> digits_value (d # y))"
    using positional_order [OF bx by', of "of_char c - 48" "of_char d - 48"] Cons.hyps by simp
  finally show ?case .
qed

lemma digit_run_is_digits:
  "digit_run_at s i \<Longrightarrow> length (take 14 (drop i s)) = 14 \<and> list_all decimal_digit (take 14 (drop i s))"
  by (auto simp add: digit_run_at_def)

text \<open>
  C3, as stated: with the candidates \<^verbatim>\<open>main\<close> and \<^verbatim>\<open>master\<close>, no candidate resolving
  gives the no-default-branch-found error, exactly one resolving gives that candidate's
  version, and both resolving gives the version with the more recent 14-digit timestamp.
  This fails on the code. Where both branches resolve to the tagged version \<^verbatim>\<open>v1.2.3\<close>,
  the result is the no-timestamp-found error and no version; where \<^verbatim>\<open>main\<close> resolves and
  \<^verbatim>\<open>master\<close> fails with a network error, exactly one candidate has resolved and the result
  is that error, not the version of \<^verbatim>\<open>main\<close>; where \<^verbatim>\<open>main\<close> fails with a network
  error, no candidate has resolved and the result is that error, not the
  no-default-branch-found error.
\<close>

theorem getLatestVersion_outcomes_counterexample:
  "example_proxy ''example.com/tagged'' ''main'' 0 = (Inr ''v1.2.3'', Suc 0)
   \<and> example_proxy ''example.com/tagged'' ''master'' (Suc 0) = (Inr ''v1.2.3'', Suc (Suc 0))
   \<and> getLatestVersion example_proxy ''example.com/tagged'' 0 = (Inl (NoTimestampFound ''v1.2.3''), Suc (Suc 0))
   \<and> example_proxy ''example.com/flaky'' ''main'' 0 = (Inr ''v0.0.0-20231101000000-aaaaaaaaaaaa'', Suc 0)
   \<and> example_proxy ''example.com/flaky'' ''master'' (Suc 0) = (Inl ''dial tcp: i/o timeout'', Suc (Suc 0))
   \<and> getLatestVersion example_proxy ''example.com/flaky'' 0
       = (Inl (QueryFailed ''dial tcp: i/o timeout''), Suc (Suc 0))
   \<and> example_proxy ''example.com/down'' ''main'' 0 = (Inl ''dial tcp: i/o timeout'', Suc 0)
   \<and> getLatestVersion example_proxy ''example.com/down'' 0
       = (Inl (QueryFailed ''dial tcp: i/o timeout''), Suc 0)"
proof -
  have "newerVersion ''v1.2.3'' ''v1.2.3'' = Inl (NoTimestampFound ''v1.2.3'')" by code_simp
  then show ?thesis
    by (simp add: getLatestVersion_unfold example_proxy_calls example_Contains)
qed

text \<open>
  C3, amended. For every module path and resolver: when both candidates fail with an
  unknown-revision error, \<^verbatim>\<open>getLatestVersion\<close> fails with the no-default-branch-found
  error; when one candidate resolves and the other fails with an unknown-revision error,
  it returns the version of the one that resolved; when both resolve and each version
  has a run of 14 consecutive digits, it returns the version whose leftmost such run is
  the greater number, and the version of \<^verbatim>\<open>main\<close> when the two are equal.
\<close>

theorem getLatestVersion_outcomes:
  "(query modulePath ''main'' w = (Inl e1, w1) \<and> Contains e1 ''unknown revision''
      \<and> query modulePath ''master'' w1 = (Inl e2, w2) \<and> Contains e2 ''unknown revision'' \<longrightarrow>
      getLatestVersion query modulePath w = (Inl NoBranchFound, w2))
   \<and> (query modulePath ''main'' w = (Inr v1, w1)
      \<and> query modulePath ''master'' w1 = (Inl e2, w2) \<and> Contains e2 ''unknown revision'' \<longrightarrow>
      getLatestVersion query modulePath w = (Inr v1, w2))
   \<and> (query modulePath ''main'' w = (Inl e1, w1) \<and> Contains e1 ''unknown revision''
      \<and> query modulePath ''master'' w1 = (Inr v2, w2) \<longrightarrow>
      getLatestVersion query modulePath w = (Inr v2, w2))
   \<and> (query modulePath ''main'' w = (Inr v1, w1) \<and> query modulePath ''master'' w1 = (Inr v2, w2)
      \<and> digit_run_at v1 i \<and> (\<forall>j<i. \<not> digit_run_at v1 j)
      \<and> digit_run_at v2 k \<and> (\<forall>j<k. \<not> digit_run_at v2 j) \<longrightarrow>
      getLatestVersion query modulePath w =
        (Inr (if digits_value (take 14 (drop i v1)) \<ge> digits_value (take 14 (drop k v2))
              then v1 else v2), w2))"
proof (intro conjI impI)
  assume "query modulePath ''main'' w = (Inl e1, w1) \<and> Contains e1 ''unknown revision''
      \<and> query modulePath ''master'' w1 = (Inl e2, w2) \<and> Contains e2 ''unknown revision''"
  then show "getLatestVersion query modulePath w = (Inl NoBranchFound, w2)"
    by (simp add: getLatestVersion_unfold)
next
  assume "query modulePath ''main'' w = (Inr v1, w1)
      \<and> query modulePath ''master'' w1 = (Inl e2, w2) \<and> Contains e2 ''unknown revision''"
  then show "getLatestVersion query modulePath w = (Inr v1, w2)"
    by (simp add: getLatestVersion_unfold)
next
  assume "query modulePath ''main'' w = (Inl e1, w1) \<and> Contains e1 ''unknown revision''
      \<and> query modulePath ''master'' w1 = (Inr v2, w2)"
  then show "getLatestVersion query modulePath w = (Inr v2, w2)"
    by (simp add: getLatestVersion_unfold)
next
  assume h: "query modulePath ''main'' w = (Inr v1, w1) \<and> query modulePath ''master'' w1 = (Inr v2, w2)
      \<and> digit_run_at v1 i \<and> (\<forall>j<i. \<not> digit_run_at v1 j)
      \<and> digit_run_at v2 k \<and> (\<forall>j<k. \<not> digit_run_at v2 j)"
  let ?t1 = "take 14 (drop i v1)" and ?t2 = "take 14 (drop k v2)"
  from h have e: "extractTimestamp v1 = Inr ?t1" "extractTimestamp v2 = Inr ?t2"
    using extractTimestamp_first by blast+
  from h have "length ?t2 = length ?t1" "list_all decimal_digit ?t2" "list_all decimal_digit ?t1"
    using digit_run_is_digits [of v1 i] digit_run_is_digits [of v2 k] by simp_all
  then have "(?t2 \<le> ?t1) = (digits_value ?t2 \<le> digits_value ?t1)"
    by (rule digit_strings_order)
  with e have "newerVersion v1 v2 = Inr (if digits_value ?t1 \<ge> digits_value ?t2 then v1 else v2)"
    by (simp add: newerVersion_def)
  with h show "getLatestVersion query modulePath w =
        (Inr (if digits_value ?t1 \<ge> digits_value ?t2 then v1 else v2), w2)"
    by (simp add: getLatestVersion_unfold)
qed

text \<open>The amended theorem at a module with no branch, one with \<^verbatim>\<open>main\<close> only, one with
  \<^verbatim>\<open>master\<close> only, and one with both, where \<^verbatim>\<open>master\<close> is the more recent.\<close>

theorem getLatestVersion_outcomes_witness:
  "getLatestVersion example_proxy ''example.com/none'' 0 = (Inl NoBranchFound, Suc (Suc 0))
   \<and> getLatestVersion example_proxy ''example.com/main-only'' 0
       = (Inr ''v0.0.0-20231201000000-def456def456'', Suc (Suc 0))
   \<and> getLatestVersion example_proxy ''example.com/master-only'' 0
       = (Inr ''v0.0.0-20231101000000-abc123abc123'', Suc (Suc 0))
   \<and> digit_run_at ''v0.0.0-20231101000000-aaaaaaaaaaaa'' 7
   \<and> \<not> (\<exists>j<7. digit_run_at ''v0.0.0-20231101000000-aaaaaaaaaaaa'' j)
   \<and> digit_run_at ''v0.0.0-20231201000000-bbbbbbbbbbbb'' 7
   \<and> \<not> (\<exists>j<7. digit_run_at ''v0.0.0-20231201000000-bbbbbbbbbbbb'' j)
   \<and> digits_value ''20231101000000'' = 20231101000000
   \<and> digits_value ''20231201000000'' = 20231201000000
   \<and> getLatestVersion example_proxy ''example.com/both'' 0
       = (Inr ''v0.0.0-20231201000000-bbbbbbbbbbbb'', Suc (Suc 0))"
proof -
  note c = example_proxy_calls example_Contains example_Contains_more
  let ?a = "''v0.0.0-20231101000000-aaaaaaaaaaaa''" and ?b = "''v0.0.0-20231201000000-bbbbbbbbbbbb''"
  have a: "digit_run_at ?a 7" by code_simp
  have a': "\<forall>j<7. \<not> digit_run_at ?a j" unfolding all_less_upt by code_simp
  have b: "digit_run_at ?b 7" by code_simp
  have b': "\<forall>j<7. \<not> digit_run_at ?b j" unfolding all_less_upt by code_simp
  have va: "digits_value ''20231101000000'' = 20231101000000" by simp
  have vb: "digits_value ''20231201000000'' = 20231201000000" by simp
  have 1: "getLatestVersion example_proxy ''example.com/none'' 0 = (Inl NoBranchFound, Suc (Suc 0))"
    using getLatestVersion_outcomes
      [where query = example_proxy and modulePath = "''example.com/none''" and w = 0
         and ?e1.0 = "''go: example.com/none@main: invalid version: unknown revision main''"
         and ?w1.0 = "Suc 0"
         and ?e2.0 = "''go: example.com/none@master: invalid version: unknown revision master''"
         and ?w2.0 = "Suc (Suc 0)"] c
    by blast
  have 2: "getLatestVersion example_proxy ''example.com/main-only'' 0
       = (Inr ''v0.0.0-20231201000000-def456def456'', Suc (Suc 0))"
    using getLatestVersion_outcomes
      [where query = example_proxy and modulePath = "''example.com/main-only''" and w = 0
         and ?v1.0 = "''v0.0.0-20231201000000-def456def456''" and ?w1.0 = "Suc 0"
         and ?e2.0 = "''go: example.com/main-only@master: invalid version: unknown revision master''"
         and ?w2.0 = "Suc (Suc 0)"] c
    by blast
  have 3: "getLatestVersion example_proxy ''example.com/master-only'' 0
       = (Inr ''v0.0.0-20231101000000-abc123abc123'', Suc (Suc 0))"
    using getLatestVersion_outcomes
      [where query = example_proxy and modulePath = "''example.com/master-only''" and w = 0
         and ?e1.0 = "''go: example.com/master-only@main: invalid version: unknown revision main''"
         and ?w1.0 = "Suc 0"
         and ?v2.0 = "''v0.0.0-20231101000000-abc123abc123''" and ?w2.0 = "Suc (Suc 0)"] c
    by blast
  have "getLatestVersion example_proxy ''example.com/both'' 0 =
      (Inr (if digits_value (take 14 (drop 7 ?a)) \<ge> digits_value (take 14 (drop 7 ?b))
            then ?a else ?b), Suc (Suc 0))"
    using getLatestVersion_outcomes
      [where query = example_proxy and modulePath = "''example.com/both''" and w = 0
         and ?w1.0 = "Suc 0" and ?w2.0 = "Suc (Suc 0)" and ?v1.0 = ?a and ?v2.0 = ?b
         and i = 7 and k = 7]
      c a a' b b'
    by blast
  moreover have "take 14 (drop 7 ?a) = ''20231101000000''" "take 14 (drop 7 ?b) = ''20231201000000''"
    by simp_all
  ultimately have 4: "getLatestVersion example_proxy ''example.com/both'' 0 = (Inr ?b, Suc (Suc 0))"
    by (simp only: va vb) simp
  from 1 2 3 4 a a' b b' va vb show ?thesis by blast
qed

text \<open>
  C10. \<^verbatim>\<open>getLatestVersion\<close> has one more way to fail: when both branches resolve and
  one of the two versions has no run of 14 consecutive digits (a tagged version at the
  tip of a branch, say), it fails with the no-timestamp-found error of
  \<^verbatim>\<open>newerVersion\<close>, for the version of \<^verbatim>\<open>main\<close> if that one has no run, else for the
  version of \<^verbatim>\<open>master\<close>.
\<close>

theorem getLatestVersion_no_timestamp:
  "query modulePath ''main'' w = (Inr v1, w1) \<and> query modulePath ''master'' w1 = (Inr v2, w2)
     \<and> ((\<forall>i. \<not> digit_run_at v1 i) \<or> (\<forall>i. \<not> digit_run_at v2 i)) \<longrightarrow>
   getLatestVersion query modulePath w =
     (Inl (NoTimestampFound (if \<forall>i. \<not> digit_run_at v1 i then v1 else v2)), w2)"
proof
  assume h: "query modulePath ''main'' w = (Inr v1, w1) \<and> query modulePath ''master'' w1 = (Inr v2, w2)
     \<and> ((\<forall>i. \<not> digit_run_at v1 i) \<or> (\<forall>i. \<not> digit_run_at v2 i))"
  then have r: "getLatestVersion query modulePath w = (newerVersion v1 v2, w2)"
    by (simp add: getLatestVersion_unfold)
  show "getLatestVersion query modulePath w =
     (Inl (NoTimestampFound (if \<forall>i. \<not> digit_run_at v1 i then v1 else v2)), w2)"
  proof (cases "\<forall>i. \<not> digit_run_at v1 i")
    case True
    then have "newerVersion v1 v2 = Inl (NoTimestampFound v1)"
      by (simp add: newerVersion_def extractTimestamp_none)
    moreover from True have "(if \<forall>i. \<not> digit_run_at v1 i then v1 else v2) = v1"
      by (rule if_P)
    ultimately show ?thesis by (simp only: r)
  next
    case False
    then obtain ts where "extractTimestamp v1 = Inr ts" using extractTimestamp_some by blast
    moreover from h False have "\<forall>i. \<not> digit_run_at v2 i" by blast
    ultimately have "newerVersion v1 v2 = Inl (NoTimestampFound v2)"
      by (simp add: newerVersion_def extractTimestamp_none)
    moreover from False have "(if \<forall>i. \<not> digit_run_at v1 i then v1 else v2) = v2"
      by (rule if_not_P)
    ultimately show ?thesis by (simp only: r)
  qed
qed

text \<open>The theorem at a module whose \<^verbatim>\<open>master\<close> is at a tagged release.\<close>

theorem getLatestVersion_no_timestamp_witness:
  "example_proxy ''example.com/tagged-master'' ''main'' 0 = (Inr ''v0.0.0-20231101000000-aaaaaaaaaaaa'', Suc 0)
   \<and> example_proxy ''example.com/tagged-master'' ''master'' (Suc 0) = (Inr ''v1.2.3'', Suc (Suc 0))
   \<and> digit_run_at ''v0.0.0-20231101000000-aaaaaaaaaaaa'' 7
   \<and> (\<forall>i. \<not> digit_run_at ''v1.2.3'' i)
   \<and> getLatestVersion example_proxy ''example.com/tagged-master'' 0
       = (Inl (NoTimestampFound ''v1.2.3''), Suc (Suc 0))"
proof -
  let ?a = "''v0.0.0-20231101000000-aaaaaaaaaaaa''"
  have a: "digit_run_at ?a 7" by code_simp
  have t: "\<forall>i. \<not> digit_run_at ''v1.2.3'' i" by (simp add: digit_run_at_def)
  from a have n: "\<not> (\<forall>i. \<not> digit_run_at ?a i)" by blast
  have "getLatestVersion example_proxy ''example.com/tagged-master'' 0
       = (Inl (NoTimestampFound (if \<forall>i. \<not> digit_run_at ?a i then ?a else ''v1.2.3'')), Suc (Suc 0))"
    using getLatestVersion_no_timestamp
      [where query = example_proxy and modulePath = "''example.com/tagged-master''" and w = 0
         and ?v1.0 = ?a and ?w1.0 = "Suc 0" and ?v2.0 = "''v1.2.3''" and ?w2.0 = "Suc (Suc 0)"]
      example_proxy_calls t
    by blast
  also have "(if \<forall>i. \<not> digit_run_at ?a i then ?a else ''v1.2.3'') = ''v1.2.3''"
    using n by (rule if_not_P)
  finally show ?thesis using example_proxy_calls a t by blast
qed

section \<open>The aggregator\<close>

lemma checkForUpdates_loop_append:
  "checkForUpdates_loop query (pre @ rest) updates w =
     (case checkForUpdates_loop query pre updates w of
        (Inl e, w1) \<Rightarrow> (Inl e, w1)
      | (Inr updates1, w1) \<Rightarrow> checkForUpdates_loop query rest updates1 w1)"
  by (induction pre arbitrary: updates w) (simp_all split: prod.splits sum.splits)

lemma checkForUpdates_loop_error:
  "checkForUpdates_loop query deps updates w = (Inl e, w') \<Longrightarrow>
     \<exists>pre dep rest updates1 w1 err.
       deps = pre @ dep # rest
       \<and> checkForUpdates_loop query pre updates w = (Inr updates1, w1)
       \<and> getLatestVersion query (module dep) w1 = (Inl err, w')
       \<and> e = Checking (module dep) err"
proof (induction deps arbitrary: updates w)
  case Nil
  then show ?case by simp
next
  case (Cons d ds)
  obtain r w0 where g: "getLatestVersion query (module d) w = (r, w0)" by fastforce
  show ?case
  proof (cases r)
    case (Inl err)
    with g Cons.prems have "w' = w0" "e = Checking (module d) err" by simp_all
    with g Inl have "d # ds = [] @ d # ds
       \<and> checkForUpdates_loop query [] updates w = (Inr updates, w)
       \<and> getLatestVersion query (module d) w = (Inl err, w')
       \<and> e = Checking (module d) err" by simp
    then show ?thesis by blast
  next
    case (Inr l)
    let ?u = "if version d \<noteq> l
              then updates @ [\<lparr>umodule = module d, current = version d, latest = l\<rparr>]
              else updates"
    from g Inr Cons.prems have "checkForUpdates_loop query ds ?u w0 = (Inl e, w')" by simp
    from Cons.IH [OF this] obtain pre dep rest updates1 w1 err where
      *: "ds = pre @ dep # rest" "checkForUpdates_loop query pre ?u w0 = (Inr updates1, w1)"
         "getLatestVersion query (module dep) w1 = (Inl err, w')" "e = Checking (module dep) err"
      by blast
    from g Inr *(2) have "checkForUpdates_loop query (d # pre) updates w = (Inr updates1, w1)"
      by simp
    with * have "d # ds = (d # pre) @ dep # rest
       \<and> checkForUpdates_loop query (d # pre) updates w = (Inr updates1, w1)
       \<and> getLatestVersion query (module dep) w1 = (Inl err, w')
       \<and> e = Checking (module dep) err" by simp
    then show ?thesis by blast
  qed
qed

lemma example_getLatestVersion:
  "getLatestVersion example_proxy ''example.com/main-only'' w
     = (Inr ''v0.0.0-20231201000000-def456def456'', Suc (Suc w))"
  "getLatestVersion example_proxy ''example.com/master-only'' w
     = (Inr ''v0.0.0-20231101000000-abc123abc123'', Suc (Suc w))"
  "getLatestVersion example_proxy ''example.com/down'' w
     = (Inl (QueryFailed ''dial tcp: i/o timeout''), Suc w)"
  by (simp_all add: getLatestVersion_unfold example_proxy_calls example_Contains example_Contains_more)

text \<open>
  C6. For every dependency list: when the dependencies before \<open>dep\<close> all resolve and the
  resolution of \<open>dep\<close> fails, \<^verbatim>\<open>checkForUpdates\<close> returns that error wrapped with the
  module path of \<open>dep\<close>, and nothing else: the updates found for the dependencies before
  it are not in the result. And whenever \<^verbatim>\<open>checkForUpdates\<close> returns an error, it is an
  error of this kind, for the first dependency whose resolution fails.
\<close>

theorem checkForUpdates_fails_fast:
  "(checkForUpdates query pre w = (Inr updates, w1)
      \<and> getLatestVersion query (module dep) w1 = (Inl err, w2) \<longrightarrow>
      checkForUpdates query (pre @ dep # rest) w = (Inl (Checking (module dep) err), w2))
   \<and> (checkForUpdates query deps w = (Inl e, w') \<longrightarrow>
      (\<exists>pre dep rest updates w1 err.
         deps = pre @ dep # rest
         \<and> checkForUpdates query pre w = (Inr updates, w1)
         \<and> getLatestVersion query (module dep) w1 = (Inl err, w')
         \<and> e = Checking (module dep) err))"
proof (intro conjI impI)
  assume "checkForUpdates query pre w = (Inr updates, w1)
      \<and> getLatestVersion query (module dep) w1 = (Inl err, w2)"
  then show "checkForUpdates query (pre @ dep # rest) w = (Inl (Checking (module dep) err), w2)"
    by (simp add: checkForUpdates_def checkForUpdates_loop_append)
next
  assume "checkForUpdates query deps w = (Inl e, w')"
  then show "\<exists>pre dep rest updates w1 err.
         deps = pre @ dep # rest
         \<and> checkForUpdates query pre w = (Inr updates, w1)
         \<and> getLatestVersion query (module dep) w1 = (Inl err, w')
         \<and> e = Checking (module dep) err"
    unfolding checkForUpdates_def by (rule checkForUpdates_loop_error)
qed

text \<open>The theorem at a list where an update has been found before the network fails.\<close>

theorem checkForUpdates_fails_fast_witness:
  "checkForUpdates example_proxy example_deps 0
     = (Inr [\<lparr>umodule = ''example.com/master-only'', current = ''v0.0.0-20230901000000-0123456789ab'',
              latest = ''v0.0.0-20231101000000-abc123abc123''\<rparr>], Suc (Suc (Suc (Suc 0))))
   \<and> getLatestVersion example_proxy ''example.com/down'' (Suc (Suc (Suc (Suc 0))))
     = (Inl (QueryFailed ''dial tcp: i/o timeout''), Suc (Suc (Suc (Suc (Suc 0)))))
   \<and> checkForUpdates example_proxy
        (example_deps @ \<lparr>module = ''example.com/down'', version = ''v0.0.0-20231129151722-fdeea329fbba''\<rparr>
           # example_deps) 0
     = (Inl (Checking ''example.com/down'' (QueryFailed ''dial tcp: i/o timeout'')),
        Suc (Suc (Suc (Suc (Suc 0)))))"
proof -
  let ?d = "\<lparr>module = ''example.com/down'', version = ''v0.0.0-20231129151722-fdeea329fbba''\<rparr>"
  have 1: "checkForUpdates example_proxy example_deps 0
     = (Inr [\<lparr>umodule = ''example.com/master-only'', current = ''v0.0.0-20230901000000-0123456789ab'',
              latest = ''v0.0.0-20231101000000-abc123abc123''\<rparr>], Suc (Suc (Suc (Suc 0))))"
    by (simp add: checkForUpdates_def example_deps_def example_getLatestVersion)
  have 2: "getLatestVersion example_proxy (module ?d) (Suc (Suc (Suc (Suc 0))))
     = (Inl (QueryFailed ''dial tcp: i/o timeout''), Suc (Suc (Suc (Suc (Suc 0)))))"
    by (simp add: example_getLatestVersion)
  from 1 2 have "checkForUpdates example_proxy (example_deps @ ?d # example_deps) 0
     = (Inl (Checking (module ?d) (QueryFailed ''dial tcp: i/o timeout'')),
        Suc (Suc (Suc (Suc (Suc 0)))))"
    using checkForUpdates_fails_fast
      [where query = example_proxy and pre = example_deps and w = 0 and dep = ?d
         and rest = example_deps] by blast
  with 1 2 show ?thesis by simp
qed

lemma checkForUpdates_loop_success:
  "resolveEach query deps w = (map Inr latests, w') \<Longrightarrow>
     checkForUpdates_loop query deps updates w =
       (Inr (updates @ map (\<lambda>(dep, l). \<lparr>umodule = module dep, current = version dep, latest = l\<rparr>)
               (filter (\<lambda>(dep, l). version dep \<noteq> l) (zip deps latests))), w')"
proof (induction deps arbitrary: updates w latests)
  case Nil
  then show ?case by simp
next
  case (Cons d ds)
  obtain r w0 where g: "getLatestVersion query (module d) w = (r, w0)" by fastforce
  obtain rs w2 where e: "resolveEach query ds w0 = (rs, w2)" by fastforce
  from g e Cons.prems have m: "r # rs = map Inr latests" "w2 = w'" by simp_all
  then obtain l ls where l: "latests = l # ls" "r = Inr l" "rs = map Inr ls" by (cases latests) auto
  from e l m have "resolveEach query ds w0 = (map Inr ls, w')" by simp
  from Cons.IH [OF this] g l show ?case by simp
qed

text \<open>
  C7. For every dependency list on which all resolutions succeed, \<^verbatim>\<open>checkForUpdates\<close>
  returns one update, made of the module path, the current version and the latest
  version, for each dependency whose current version is not the same string as its
  latest version, and for no other; the updates are in the order of their dependencies.
\<close>

theorem checkForUpdates_reports_differences:
  "resolveEach query deps w = (map Inr latests, w') \<longrightarrow>
     checkForUpdates query deps w =
       (Inr (map (\<lambda>(dep, l). \<lparr>umodule = module dep, current = version dep, latest = l\<rparr>)
              (filter (\<lambda>(dep, l). version dep \<noteq> l) (zip deps latests))), w')"
  by (simp add: checkForUpdates_def checkForUpdates_loop_success)

text \<open>The theorem at the two example dependencies: only the second one has an update.\<close>

theorem checkForUpdates_reports_differences_witness:
  "resolveEach example_proxy example_deps 0
     = (map Inr [''v0.0.0-20231201000000-def456def456'', ''v0.0.0-20231101000000-abc123abc123''],
        Suc (Suc (Suc (Suc 0))))
   \<and> checkForUpdates example_proxy example_deps 0
     = (Inr [\<lparr>umodule = ''example.com/master-only'', current = ''v0.0.0-20230901000000-0123456789ab'',
              latest = ''v0.0.0-20231101000000-abc123abc123''\<rparr>], Suc (Suc (Suc (Suc 0))))"
proof -
  have r: "resolveEach example_proxy example_deps 0
     = (map Inr [''v0.0.0-20231201000000-def456def456'', ''v0.0.0-20231101000000-abc123abc123''],
        Suc (Suc (Suc (Suc 0))))"
    by (simp add: example_deps_def example_getLatestVersion)
  with checkForUpdates_reports_differences
         [where query = example_proxy and deps = example_deps and w = 0
            and latests = "[''v0.0.0-20231201000000-def456def456'', ''v0.0.0-20231101000000-abc123abc123'']"
            and w' = "Suc (Suc (Suc (Suc 0)))"]
  show ?thesis by (simp add: example_deps_def)
qed

end
